theory Spec2Isabelle
  imports Main "HOL-Library.Multiset" "HOL-Library.Sublist"
begin

section \<open>Python values used by the application\<close>

subsection \<open>Floats\<close>

text \<open>
  The sliders of \<^verbatim>\<open>app.py\<close> return Python floats (IEEE binary64) and the geometry is
  computed with float arithmetic followed by \<^verbatim>\<open>int(...)\<close>. A float is modelled by a
  mantissa and a binary exponent: \<open>F m e\<close> is the number \<open>m * 2 ^ e\<close>. Every arithmetic
  result is rounded to a 53 bit mantissa, to nearest, ties to even, as the hardware does.
  The exponent is not bounded: overflow to infinity, NaN and gradual underflow are outside
  the model (image dimensions and slider ratios stay far inside the normal range).
\<close>

datatype float64 = F (mant: int) (expo: int)

function nbits :: "int \<Rightarrow> int" where
  \<comment> \<open>\<^verbatim>\<open>n.bit_length()\<close> for \<open>0 \<le> n\<close>\<close>
  "nbits n = (if n \<le> 0 then 0 else 1 + nbits (n div 2))"
  by pat_completeness auto
termination
  by (relation "measure nat") auto

declare nbits.simps [simp del]

definition round_half_even :: "int \<Rightarrow> int \<Rightarrow> int" where
  \<comment> \<open>\<open>num / den\<close> rounded to the nearest integer, ties to even; \<open>0 \<le> num\<close>, \<open>0 < den\<close>\<close>
  "round_half_even num den =
     (let q = num div den; r = num mod den
      in if 2 * r < den then q
         else if den < 2 * r then q + 1
         else if even q then q else q + 1)"

definition round53 :: "int \<Rightarrow> int \<Rightarrow> float64" where
  \<comment> \<open>the float nearest to \<open>m * 2 ^ e\<close>\<close>
  "round53 m e =
     (let k = nbits \<bar>m\<bar> - 53
      in if k \<le> 0 then F m e
         else F (sgn m * round_half_even \<bar>m\<bar> (2 ^ nat k)) (e + k))"

definition float_of_int :: "int \<Rightarrow> float64" where
  \<comment> \<open>the conversion Python applies to an \<^verbatim>\<open>int\<close> operand of a float operation\<close>
  "float_of_int n = round53 n 0"

definition fmul :: "float64 \<Rightarrow> float64 \<Rightarrow> float64" where
  "fmul x y = round53 (mant x * mant y) (expo x + expo y)"

definition fadd :: "float64 \<Rightarrow> float64 \<Rightarrow> float64" where
  "fadd x y =
     (let e = min (expo x) (expo y)
      in round53 (mant x * 2 ^ nat (expo x - e) + mant y * 2 ^ nat (expo y - e)) e)"

definition py_int :: "float64 \<Rightarrow> int" where
  \<comment> \<open>\<^verbatim>\<open>int(x)\<close>: truncation toward zero\<close>
  "py_int x =
     (if 0 \<le> expo x then mant x * 2 ^ nat (expo x)
      else sgn (mant x) * (\<bar>mant x\<bar> div 2 ^ nat (- expo x)))"

definition float_of_frac :: "int \<Rightarrow> int \<Rightarrow> float64" where
  \<comment> \<open>the float a decimal literal or slider position \<open>p / q\<close> denotes: the binary64
      value nearest to the fraction\<close>
  "float_of_frac p q =
     (if p = 0 \<or> q \<le> 0 then F 0 0
      else
        let a = \<bar>p\<bar>;
            k = nbits a - nbits q - 53;
            num = (if k < 0 then a * 2 ^ nat (- k) else a);
            den = (if k < 0 then q else q * 2 ^ nat k);
            wide = (den * 2 ^ 53 \<le> num);
            den' = (if wide then 2 * den else den)
        in F (sgn p * round_half_even num den') (if wide then k + 1 else k))"

section \<open>Geometry\<close>

subsection \<open>Mask region (generative fill and erase tabs)\<close>

text \<open>
  \<^verbatim>\<open>app.py\<close>, lines 703-713 and, with the same text, lines 857-867:
  \<^verbatim>\<open>
  x_start = int(original_width * x_start_ratio)
  y_start = int(original_height * y_start_ratio)
  mask_width = int(original_width * mask_width_ratio)
  mask_height = int(original_height * mask_height_ratio)
  x_end = min(x_start + mask_width, original_width)
  y_end = min(y_start + mask_height, original_height)
  mask_width = x_end - x_start
  mask_height = y_end - y_start
  \<close>
\<close>

record region =
  x_start :: int
  y_start :: int
  mask_width :: int
  mask_height :: int

definition mask_region ::
  "int \<Rightarrow> int \<Rightarrow> float64 \<Rightarrow> float64 \<Rightarrow> float64 \<Rightarrow> float64 \<Rightarrow> region" where
  "mask_region original_width original_height
       x_start_ratio y_start_ratio mask_width_ratio mask_height_ratio =
     (let xs = py_int (fmul (float_of_int original_width) x_start_ratio);
          ys = py_int (fmul (float_of_int original_height) y_start_ratio);
          mw = py_int (fmul (float_of_int original_width) mask_width_ratio);
          mh = py_int (fmul (float_of_int original_height) mask_height_ratio);
          x_end = min (xs + mw) original_width;
          y_end = min (ys + mh) original_height
      in \<lparr>x_start = xs, y_start = ys, mask_width = x_end - xs, mask_height = y_end - ys\<rparr>)"

subsection \<open>Canvas placement (image expansion tab)\<close>

text \<open>
  \<^verbatim>\<open>app.py\<close>, lines 966-975:
  \<^verbatim>\<open>
  new_width = int(original_width * (1 + left_expand_ratio + right_expand_ratio))
  new_height = int(original_height * (1 + top_expand_ratio + bottom_expand_ratio))
  original_x = int(original_width * left_expand_ratio)
  original_y = int(original_height * top_expand_ratio)
  canvas_size = (new_width, new_height)
  original_image_size = (original_width, original_height)
  original_image_location = (original_x, original_y)
  \<close>
\<close>

record placement =
  canvas_size :: "int \<times> int"
  original_image_size :: "int \<times> int"
  original_image_location :: "int \<times> int"

definition expansion_placement ::
  "int \<Rightarrow> int \<Rightarrow> float64 \<Rightarrow> float64 \<Rightarrow> float64 \<Rightarrow> float64 \<Rightarrow> placement" where
  "expansion_placement original_width original_height
       left_expand_ratio right_expand_ratio top_expand_ratio bottom_expand_ratio =
     (let new_width = py_int (fmul (float_of_int original_width)
            (fadd (fadd (float_of_int 1) left_expand_ratio) right_expand_ratio));
          new_height = py_int (fmul (float_of_int original_height)
            (fadd (fadd (float_of_int 1) top_expand_ratio) bottom_expand_ratio));
          original_x = py_int (fmul (float_of_int original_width) left_expand_ratio);
          original_y = py_int (fmul (float_of_int original_height) top_expand_ratio)
      in \<lparr>canvas_size = (new_width, new_height),
          original_image_size = (original_width, original_height),
          original_image_location = (original_x, original_y)\<rparr>)"

subsection \<open>The expansion request\<close>

datatype py_error = ValueError | TypeError | IndexError | KeyError | UnboundLocalError





text \<open>
  \<^verbatim>\<open>app.py\<close>, lines 955-958: the four edge ratios are read from sliders and from nowhere
  else,
  \<^verbatim>\<open>
  left_expand_ratio = st.slider("Expand Left (Ratio)", 0.0, 2.0, 0.5, 0.1)
  \<close>
  and alike for right, top and bottom: each runs from 0.0 to 2.0 in steps of 0.1, so it
  has the 21 positions 0.0, 0.1, ..., 2.0. \<open>slider_ratio k\<close> is the float of position
  \<open>k\<close>. \<open>expand_tab\<close> is the tab as the user drives it: slider positions in, the
  outcome of the button out; \<open>None\<close> stands for positions the sliders do not have.
\<close>

definition slider_ratio :: "nat \<Rightarrow> float64" where
  "slider_ratio k = float_of_frac (int k) 10"


section \<open>Responses of the remote service\<close>

subsection \<open>JSON values and the Python operations applied to them\<close>

text \<open>
  A response is what \<^verbatim>\<open>response.json()\<close> returns. A dictionary is an association list
  in insertion order (its keys are distinct strings; \<open>map_of\<close> looks a key up). Numbers
  are integers here: the operations below treat every number alike.
\<close>

datatype json =
    JNull
  | JBool bool
  | JNum int
  | JStr string
  | JList "json list"
  | JDict "(string \<times> json) list"

fun truthy :: "json \<Rightarrow> bool" where
  \<comment> \<open>\<^verbatim>\<open>if x:\<close>\<close>
  "truthy JNull = False"
| "truthy (JBool b) = b"
| "truthy (JNum n) = (n \<noteq> 0)"
| "truthy (JStr s) = (s \<noteq> [])"
| "truthy (JList xs) = (xs \<noteq> [])"
| "truthy (JDict d) = (d \<noteq> [])"

fun py_first :: "json \<Rightarrow> py_error + json" where
  \<comment> \<open>\<^verbatim>\<open>x[0]\<close>\<close>
  "py_first (JList []) = Inl IndexError"
| "py_first (JList (x # xs)) = Inr x"
| "py_first (JStr []) = Inl IndexError"
| "py_first (JStr (c # cs)) = Inr (JStr [c])"
| "py_first (JDict d) = Inl KeyError"
| "py_first JNull = Inl TypeError"
| "py_first (JBool b) = Inl TypeError"
| "py_first (JNum n) = Inl TypeError"

definition py_take :: "'a list \<Rightarrow> int \<Rightarrow> 'a list" where
  \<comment> \<open>\<^verbatim>\<open>xs[:n]\<close>: a negative \<open>n\<close> counts from the end\<close>
  "py_take xs n = (if 0 \<le> n then take (nat n) xs else take (nat (int (length xs) + n)) xs)"

fun py_slice :: "json \<Rightarrow> int \<Rightarrow> py_error + json" where
  \<comment> \<open>\<^verbatim>\<open>x[:n]\<close>\<close>
  "py_slice (JList xs) n = Inr (JList (py_take xs n))"
| "py_slice (JStr s) n = Inr (JStr (py_take s n))"
| "py_slice (JDict d) n = Inl TypeError"  \<comment> \<open>a slice is no key of a dictionary\<close>
| "py_slice JNull n = Inl TypeError"
| "py_slice (JBool b) n = Inl TypeError"
| "py_slice (JNum k) n = Inl TypeError"

fun py_iter :: "json \<Rightarrow> py_error + json list" where
  \<comment> \<open>the elements \<^verbatim>\<open>urls.extend(x)\<close> appends: a string yields its characters, a
      dictionary its keys, a value that is not iterable raises\<close>
  "py_iter (JList xs) = Inr xs"
| "py_iter (JStr s) = Inr (map (\<lambda>c. JStr [c]) s)"
| "py_iter (JDict d) = Inr (map (\<lambda>kv. JStr (fst kv)) d)"
| "py_iter JNull = Inl TypeError"
| "py_iter (JBool b) = Inl TypeError"
| "py_iter (JNum n) = Inl TypeError"

subsection \<open>Session state\<close>

text \<open>
  The fields of \<^verbatim>\<open>st.session_state\<close> that the result handling and the polling read and
  write (\<^verbatim>\<open>initialize_session_state\<close>, lines 44-59). \<^verbatim>\<open>edited_image\<close> starts as
  \<^verbatim>\<open>None\<close>.
\<close>

record session_state =
  pending_urls :: "json list"
  edited_image :: "json option"
  generated_images :: "json list"

subsection \<open>Synchronous result of the "Generate Images" tab\<close>

text \<open>
  \<^verbatim>\<open>app.py\<close>, lines 242-268:
  \<^verbatim>\<open>
  if result:
      st.write("Debug - Raw API Response:", result)
      if isinstance(result, dict):
          if "result_url" in result:
              st.session_state.edited_image = result["result_url"]
              st.success(...)
          elif "result_urls" in result:
              st.session_state.edited_image = result["result_urls"][0]
              st.success(...)
          elif "result" in result and isinstance(result["result"], list):
              for item in result["result"]:
                  if isinstance(item, dict) and "urls" in item:
                      st.session_state.edited_image = item["urls"][0]
                      st.success(...)
                      break
                  elif isinstance(item, list) and len(item) > 0:
                      st.session_state.edited_image = item[0]
                      st.success(...)
                      break
      else:
          st.error("No valid result format found in the API response.")
  except Exception as e:
      st.error(f"Error generating images: {str(e)}")
  \<close>
  Every assignment to \<^verbatim>\<open>edited_image\<close> is followed at once by \<^verbatim>\<open>st.success\<close>, and an
  exception can only be raised while the assigned value is computed. So the handling is
  split in two: which value, if any, the shape matching selects, and what is then done to
  the session and shown to the user.
\<close>

fun first_item_url :: "json list \<Rightarrow> py_error + json option" where
  \<comment> \<open>the \<^verbatim>\<open>for item in result["result"]\<close> loop; \<open>None\<close>: it ended without \<^verbatim>\<open>break\<close>\<close>
  "first_item_url [] = Inr None"
| "first_item_url (JDict d # rest) =
     (case map_of d ''urls'' of
        Some v \<Rightarrow> (case py_first v of Inl e \<Rightarrow> Inl e | Inr u \<Rightarrow> Inr (Some u))
      | None \<Rightarrow> first_item_url rest)"
| "first_item_url (JList (x # xs) # rest) = Inr (Some x)"
| "first_item_url (item # rest) = first_item_url rest"

datatype shape_match =
    Matched json
  | Unmatched
  | Not_a_dict

definition match_result_shape :: "json \<Rightarrow> py_error + shape_match" where
  "match_result_shape result =
     (case result of
        JDict d \<Rightarrow>
          (case map_of d ''result_url'' of
             Some u \<Rightarrow> Inr (Matched u)
           | None \<Rightarrow>
               (case map_of d ''result_urls'' of
                  Some v \<Rightarrow> (case py_first v of Inl e \<Rightarrow> Inl e | Inr u \<Rightarrow> Inr (Matched u))
                | None \<Rightarrow>
                    (case map_of d ''result'' of
                       Some (JList items) \<Rightarrow>
                         (case first_item_url items of
                            Inl e \<Rightarrow> Inl e
                          | Inr (Some u) \<Rightarrow> Inr (Matched u)
                          | Inr None \<Rightarrow> Inr Unmatched)
                     | _ \<Rightarrow> Inr Unmatched)))
      | _ \<Rightarrow> Inr Not_a_dict)"

datatype notice =
    Debug_response json
  | Success_generated
  | Error_no_valid_format
  | Error_generating py_error

definition handle_generate_result :: "session_state \<Rightarrow> json \<Rightarrow> session_state \<times> notice list" where
  "handle_generate_result st result =
     (if \<not> truthy result then (st, [])
      else
        case match_result_shape result of
          Inl e \<Rightarrow> (st, [Debug_response result, Error_generating e])
        | Inr (Matched u) \<Rightarrow>
            (st\<lparr>edited_image := Some u\<rparr>, [Debug_response result, Success_generated])
        | Inr Unmatched \<Rightarrow> (st, [Debug_response result])
        | Inr Not_a_dict \<Rightarrow> (st, [Debug_response result, Error_no_valid_format]))"

subsection \<open>Asynchronous result of the lifestyle shot: the pending URLs\<close>

text \<open>
  \<^verbatim>\<open>app.py\<close>, lines 517-533 (by text) and, with the same text, lines 618-634 (by image):
  \<^verbatim>\<open>
  urls = []
  if isinstance(result, dict):
      if "urls" in result:
          urls.extend(result["urls"][:num_results])
      elif "result" in result and isinstance(result["result"], list):
          for item in result["result"]:
              if isinstance(item, dict) and "urls" in item:
                  urls.extend(item["urls"])
              elif isinstance(item, list):
                  urls.extend(item)
              if len(urls) >= num_results:
                  break
          urls = urls[:num_results]
  \<close>
\<close>

definition extend_with_item :: "json list \<Rightarrow> json \<Rightarrow> py_error + json list" where
  \<comment> \<open>the \<^verbatim>\<open>if\<close>/\<^verbatim>\<open>elif\<close> of the loop body\<close>
  "extend_with_item urls item =
     (case item of
        JDict d \<Rightarrow>
          (case map_of d ''urls'' of
             Some v \<Rightarrow> (case py_iter v of Inl e \<Rightarrow> Inl e | Inr xs \<Rightarrow> Inr (urls @ xs))
           | None \<Rightarrow> Inr urls)
      | JList xs \<Rightarrow> Inr (urls @ xs)
      | _ \<Rightarrow> Inr urls)"

fun extend_with_items :: "json list \<Rightarrow> json list \<Rightarrow> int \<Rightarrow> py_error + json list" where
  "extend_with_items urls [] num_results = Inr urls"
| "extend_with_items urls (item # rest) num_results =
     (case extend_with_item urls item of
        Inl e \<Rightarrow> Inl e
      | Inr urls' \<Rightarrow>
          if num_results \<le> int (length urls') then Inr urls'
          else extend_with_items urls' rest num_results)"

definition collect_urls :: "json \<Rightarrow> int \<Rightarrow> py_error + json list" where
  "collect_urls result num_results =
     (case result of
        JDict d \<Rightarrow>
          (case map_of d ''urls'' of
             Some v \<Rightarrow>
               (case py_slice v num_results of Inl e \<Rightarrow> Inl e | Inr part \<Rightarrow> py_iter part)
           | None \<Rightarrow>
               (case map_of d ''result'' of
                  Some (JList items) \<Rightarrow>
                    (case extend_with_items [] items num_results of
                       Inl e \<Rightarrow> Inl e
                     | Inr urls \<Rightarrow> Inr (py_take urls num_results))
                | _ \<Rightarrow> Inr []))
      | _ \<Rightarrow> Inr [])"

section \<open>Polling of pending jobs\<close>

text \<open>
  \<^verbatim>\<open>requests.head(url)\<close> either returns a response with a status code or raises. What
  the remote side answers may change from one request to the next, so a probe is a
  function of the number of HEAD requests issued before it and of the URL.
\<close>

datatype probe_result = Status int | Raised

type_synonym probe = "nat \<Rightarrow> json \<Rightarrow> probe_result"

text \<open>
  \<^verbatim>\<open>check_generated_images\<close>, lines 99-126. The loop of lines 105-114:
  \<^verbatim>\<open>
  for url in st.session_state.pending_urls:
      try:
          response = requests.head(url)
          if response.status_code == 200:
              ready_images.append(url)
          else:
              still_pending.append(url)
      except Exception as e:
          still_pending.append(url)
  \<close>
\<close>

fun probe_urls ::
  "probe \<Rightarrow> nat \<Rightarrow> json list \<Rightarrow> json list \<Rightarrow> json list \<Rightarrow> json list \<times> json list" where
  "probe_urls head k [] ready_images still_pending = (ready_images, still_pending)"
| "probe_urls head k (url # rest) ready_images still_pending =
     (case head k url of
        Status status_code \<Rightarrow>
          if status_code = 200
          then probe_urls head (Suc k) rest (ready_images @ [url]) still_pending
          else probe_urls head (Suc k) rest ready_images (still_pending @ [url])
      | Raised \<Rightarrow> probe_urls head (Suc k) rest ready_images (still_pending @ [url]))"

text \<open>
  The result is the returned boolean, the number of HEAD requests issued so far, and the
  session state.
\<close>

definition check_generated_images ::
  "probe \<Rightarrow> nat \<Rightarrow> session_state \<Rightarrow> bool \<times> nat \<times> session_state" where
  "check_generated_images head k st =
     (if pending_urls st \<noteq> [] then
        let (ready_images, still_pending) = probe_urls head k (pending_urls st) [] [];
            k' = k + length (pending_urls st);
            st1 = st\<lparr>pending_urls := still_pending\<rparr>
        in if ready_images \<noteq> [] then
             let st2 = st1\<lparr>edited_image := Some (hd ready_images)\<rparr>
             in (True, k',
                 if 1 < length ready_images then st2\<lparr>generated_images := ready_images\<rparr>
                 else st2)
           else (False, k', st1)
      else (False, k, st))"

text \<open>
  \<^verbatim>\<open>auto_check_images\<close>, lines 128-138:
  \<^verbatim>\<open>
  max_attempts = 3
  attempt = 0
  while attempt < max_attempts and st.session_state.pending_urls:
      time.sleep(2)
      if check_generated_images():
          status_container.success(...)
          return True
      attempt += 1
  return False
  \<close>
  The waiting is not modelled. Besides the returned boolean the model gives the value of
  \<^verbatim>\<open>attempt\<close> when the function returns (the number of passes that found nothing ready),
  the number of HEAD requests issued so far, and the session state.
\<close>

definition max_attempts :: nat where
  "max_attempts = 3"

function auto_check_loop ::
  "probe \<Rightarrow> nat \<Rightarrow> nat \<Rightarrow> session_state \<Rightarrow> bool \<times> nat \<times> nat \<times> session_state" where
  "auto_check_loop head attempt k st =
     (if attempt < max_attempts \<and> pending_urls st \<noteq> [] then
        let (found, k', st') = check_generated_images head k st
        in if found then (True, attempt, k', st')
           else auto_check_loop head (attempt + 1) k' st'
      else (False, attempt, k, st))"
  by pat_completeness auto
termination
  by (relation "measure (\<lambda>(head, attempt, k, st). max_attempts - attempt)") auto

declare auto_check_loop.simps [simp del]

definition auto_check_images ::
  "probe \<Rightarrow> nat \<Rightarrow> session_state \<Rightarrow> bool \<times> nat \<times> nat \<times> session_state" where
  "auto_check_images head k st = auto_check_loop head 0 k st"

section \<open>Arguments of the lifestyle shot request\<close>

text \<open>
  \<^verbatim>\<open>app.py\<close>, lines 404-439: which widgets exist, and so which local variables are
  bound, depends on the placement type:
  \<^verbatim>\<open>
  if placement_type == "Manual Placement":
      positions = st.multiselect(...)
  elif placement_type == "Manual Padding":
      pad_left = ...; pad_right = ...; pad_top = ...; pad_bottom = ...
  elif placement_type in ["Automatic", "Manual Placement", "Custom Coordinates"]:
      shot_width = ...; shot_height = ...
  ...
  if placement_type == "Custom Coordinates":
      fg_width = ...; fg_height = ...; fg_x = ...; fg_y = ...
  \<close>
  \<open>widget_values\<close> holds what the user would enter in each widget; \<open>lifestyle_locals\<close>
  holds the local variables, \<open>None\<close> for one that was never assigned.
\<close>

datatype placement_type =
    Original
  | Automatic
  | Manual_Placement
  | Manual_Padding
  | Custom_Coordinates

record widget_values =
  w_pad_left :: int
  w_pad_right :: int
  w_pad_top :: int
  w_pad_bottom :: int
  w_shot_width :: int
  w_shot_height :: int
  w_fg_width :: int
  w_fg_height :: int
  w_fg_x :: int
  w_fg_y :: int

record lifestyle_locals =
  pad_left :: "int option"
  pad_right :: "int option"
  pad_top :: "int option"
  pad_bottom :: "int option"
  shot_width :: "int option"
  shot_height :: "int option"
  fg_width :: "int option"
  fg_height :: "int option"
  fg_x :: "int option"
  fg_y :: "int option"

definition bind_if :: "bool \<Rightarrow> 'a \<Rightarrow> 'a option" where
  "bind_if c v = (if c then Some v else None)"

definition lifestyle_widgets :: "placement_type \<Rightarrow> widget_values \<Rightarrow> lifestyle_locals" where
  "lifestyle_widgets pt w =
     (let padding = (pt \<noteq> Manual_Placement \<and> pt = Manual_Padding);
          shot = (pt \<noteq> Manual_Placement \<and> pt \<noteq> Manual_Padding
                  \<and> pt \<in> {Automatic, Manual_Placement, Custom_Coordinates});
          fg = (pt = Custom_Coordinates)
      in \<lparr>pad_left = bind_if padding (w_pad_left w),
          pad_right = bind_if padding (w_pad_right w),
          pad_top = bind_if padding (w_pad_top w),
          pad_bottom = bind_if padding (w_pad_bottom w),
          shot_width = bind_if shot (w_shot_width w),
          shot_height = bind_if shot (w_shot_height w),
          fg_width = bind_if fg (w_fg_width w),
          fg_height = bind_if fg (w_fg_height w),
          fg_x = bind_if fg (w_fg_x w),
          fg_y = bind_if fg (w_fg_y w)\<rparr>)"

definition read_local :: "'a option \<Rightarrow> py_error + 'a" where
  \<comment> \<open>reading a local variable that was never assigned raises\<close>
  "read_local v = (case v of None \<Rightarrow> Inl UnboundLocalError | Some x \<Rightarrow> Inr x)"

definition read_locals :: "'a option list \<Rightarrow> py_error + 'a list" where
  \<comment> \<open>a list display \<^verbatim>\<open>[a, b, ...]\<close> of local variables\<close>
  "read_locals vs = (if None \<in> set vs then Inl UnboundLocalError else Inr (map the vs))"

text \<open>
  The placement dependent keyword arguments of \<^verbatim>\<open>lifestyle_shot_by_text\<close> (lines
  470-489) and \<^verbatim>\<open>lifestyle_shot_by_image\<close> (lines 572-590), evaluated in the order they
  are written; both calls spell them alike:
  \<^verbatim>\<open>
  placement_type=placement_type.lower().replace(" ", "_"),
  shot_size=[shot_width, shot_height] if placement_type != "Original" else [1000, 1000],
  padding_values=[pad_left, pad_right, pad_top, pad_bottom]
                 if placement_type == "Manual Padding" else [0, 0, 0, 0],
  foreground_image_size=[fg_width, fg_height]
                 if placement_type == "Custom Coordinates" else None,
  foreground_image_location=[fg_x, fg_y]
                 if placement_type == "Custom Coordinates" else None,
  \<close>
  An argument is \<open>None\<close> where the call passes Python's \<^verbatim>\<open>None\<close>. The functions called
  are in \<^verbatim>\<open>services\<close>; the request they build from the arguments is modelled
  further down.
\<close>

fun placement_name :: "placement_type \<Rightarrow> string" where
  "placement_name Original = ''original''"
| "placement_name Automatic = ''automatic''"
| "placement_name Manual_Placement = ''manual_placement''"
| "placement_name Manual_Padding = ''manual_padding''"
| "placement_name Custom_Coordinates = ''custom_coordinates''"

record lifestyle_args =
  arg_placement_type :: string
  arg_shot_size :: "int list"
  arg_padding_values :: "int list option"
  arg_foreground_image_size :: "int list option"
  arg_foreground_image_location :: "int list option"

definition lifestyle_call_args :: "placement_type \<Rightarrow> lifestyle_locals \<Rightarrow> py_error + lifestyle_args" where
  "lifestyle_call_args pt l =
     (case (if pt \<noteq> Original then read_locals [shot_width l, shot_height l]
            else Inr [1000, 1000]) of
        Inl e \<Rightarrow> Inl e
      | Inr shot_size \<Rightarrow>
     (case (if pt = Manual_Padding
            then read_locals [pad_left l, pad_right l, pad_top l, pad_bottom l]
            else Inr [0, 0, 0, 0]) of
        Inl e \<Rightarrow> Inl e
      | Inr padding_values \<Rightarrow>
     (case (if pt = Custom_Coordinates
            then map_sum id Some (read_locals [fg_width l, fg_height l])
            else Inr None) of
        Inl e \<Rightarrow> Inl e
      | Inr foreground_image_size \<Rightarrow>
     (case (if pt = Custom_Coordinates
            then map_sum id Some (read_locals [fg_x l, fg_y l])
            else Inr None) of
        Inl e \<Rightarrow> Inl e
      | Inr foreground_image_location \<Rightarrow>
          Inr \<lparr>arg_placement_type = placement_name pt,
               arg_shot_size = shot_size,
               arg_padding_values = Some padding_values,
               arg_foreground_image_size = foreground_image_size,
               arg_foreground_image_location = foreground_image_location\<rparr>))))"

definition lifestyle_request :: "placement_type \<Rightarrow> widget_values \<Rightarrow> py_error + lifestyle_args" where
  "lifestyle_request pt w = lifestyle_call_args pt (lifestyle_widgets pt w)"

text \<open>
  Modelled from the spec: the request that \<^verbatim>\<open>lifestyle_shot_by_text\<close> and
  \<^verbatim>\<open>lifestyle_shot_by_image\<close> build from their arguments and send. Both functions are in
  \<^verbatim>\<open>services\<close>, of which only \<^verbatim>\<open>image_expansion.py\<close> is among the sources. The spec
  (section 4.4) says of the assembled request: "Mutually exclusive parameter groups (e.g.,
  padding values only meaningful under \<^verbatim>\<open>manual_padding\<close>) are nulled out rather than sent
  when the governing mode does not apply". The padding values are governed by
  \<^verbatim>\<open>manual_padding\<close>, the foreground image size and location by \<^verbatim>\<open>custom_coordinates\<close>;
  a field that is \<open>None\<close> is not sent.
\<close>

record lifestyle_payload =
  req_placement_type :: string
  req_shot_size :: "int list"
  req_padding_values :: "int list option"
  req_foreground_image_size :: "int list option"
  req_foreground_image_location :: "int list option"

definition lifestyle_shot_payload :: "lifestyle_args \<Rightarrow> lifestyle_payload" where
  \<comment> \<open>Modelled from the spec: the payload assembly of \<^verbatim>\<open>services.lifestyle_shot_by_text\<close>
      and \<^verbatim>\<open>services.lifestyle_shot_by_image\<close>, which are missing from the sources\<close>
  "lifestyle_shot_payload a =
     \<lparr>req_placement_type = arg_placement_type a,
      req_shot_size = arg_shot_size a,
      req_padding_values =
        (if arg_placement_type a = ''manual_padding'' then arg_padding_values a else None),
      req_foreground_image_size =
        (if arg_placement_type a = ''custom_coordinates''
         then arg_foreground_image_size a else None),
      req_foreground_image_location =
        (if arg_placement_type a = ''custom_coordinates''
         then arg_foreground_image_location a else None)\<rparr>"

definition lifestyle_dispatch :: "placement_type \<Rightarrow> widget_values \<Rightarrow> py_error + lifestyle_payload" where
  \<comment> \<open>the call of \<^verbatim>\<open>app.py\<close> followed by the payload assembly of the service: the request
      that is dispatched, or the exception raised before any request\<close>
  "lifestyle_dispatch pt w =
     (case lifestyle_request pt w of
        Inl e \<Rightarrow> Inl e
      | Inr a \<Rightarrow> Inr (lifestyle_shot_payload a))"

section \<open>Properties of the geometry\<close>

lemma scaled_1000_by_0_9: "py_int (fmul (float_of_int 1000) (float_of_frac 9 10)) = 900"
  by code_simp

lemma scaled_1000_by_0_3: "py_int (fmul (float_of_int 1000) (float_of_frac 3 10)) = 300"
  by code_simp

text \<open>
  Claim C1. The mask region never reaches past the image: the start plus the width is at
  most the image width, and the start plus the height is at most the image height. This
  holds for all dimensions and all ratios (so in particular for dimensions of at least 1
  and ratios in the unit interval with positive width and height ratios), because the end
  coordinate is clipped to the image and the extent is taken from the clipped end. For a
  1000 by 800 image with start ratio 0.9 and width ratio 0.3 the region starts at 900 and
  is 100 wide, not 300.
\<close>

theorem mask_region_within_image:
  "x_start (mask_region W H xr yr wr hr) + mask_width (mask_region W H xr yr wr hr) \<le> W
   \<and> y_start (mask_region W H xr yr wr hr) + mask_height (mask_region W H xr yr wr hr) \<le> H
   \<and> x_start (mask_region 1000 800 (float_of_frac 9 10) yr (float_of_frac 3 10) hr) = 900
   \<and> mask_width (mask_region 1000 800 (float_of_frac 9 10) yr (float_of_frac 3 10) hr) = 100"
proof -
  have bound: "x_start (mask_region W H xr yr wr hr) + mask_width (mask_region W H xr yr wr hr) \<le> W
     \<and> y_start (mask_region W H xr yr wr hr) + mask_height (mask_region W H xr yr wr hr) \<le> H"
    by (simp add: mask_region_def Let_def)
  have start: "x_start (mask_region 1000 800 (float_of_frac 9 10) yr (float_of_frac 3 10) hr) = 900"
    unfolding mask_region_def Let_def scaled_1000_by_0_9 by simp
  have width: "mask_width (mask_region 1000 800 (float_of_frac 9 10) yr (float_of_frac 3 10) hr) = 100"
    unfolding mask_region_def Let_def scaled_1000_by_0_9 scaled_1000_by_0_3 by simp
  from bound start width show ?thesis by blast
qed

lemma slider_0_4: "float_of_frac 4 10 = F 7205759403792794 (- 54)"
  by code_simp

lemma placement_half_left_half_right:
  "expansion_placement 800 600 (float_of_frac 1 2) (float_of_frac 1 2) (F 0 0) (F 0 0) =
     \<lparr>canvas_size = (1600, 600), original_image_size = (800, 600),
      original_image_location = (400, 0)\<rparr>"
  by code_simp

lemma placement_45_left_0_4:
  "expansion_placement 45 45 (float_of_frac 4 10) (F 0 0) (F 0 0) (F 0 0) =
     \<lparr>canvas_size = (62, 45), original_image_size = (45, 45),
      original_image_location = (18, 0)\<rparr>"
  by code_simp

text \<open>
  Claim C6. The claim says that the original image, put at its computed location, always
  fits on the computed canvas. The two sides are rounded separately in float arithmetic
  and the claim fails: for an image 45 pixels wide with left ratio 0.4 and right ratio 0.0
  the sum \<^verbatim>\<open>1 + 0.4 + 0.0\<close> is the float just below 1.4, the product with 45 is the float
  just below 63 and the canvas is 62 wide, while the image is put at 18 and ends at 63.
\<close>

theorem expansion_placement_exceeds_canvas:
  "canvas_size (expansion_placement 45 45 (float_of_frac 4 10) (F 0 0) (F 0 0) (F 0 0)) = (62, 45)
   \<and> original_image_location
        (expansion_placement 45 45 (float_of_frac 4 10) (F 0 0) (F 0 0) (F 0 0)) = (18, 0)
   \<and> fst (canvas_size (expansion_placement 45 45 (float_of_frac 4 10) (F 0 0) (F 0 0) (F 0 0)))
       < fst (original_image_location
              (expansion_placement 45 45 (float_of_frac 4 10) (F 0 0) (F 0 0) (F 0 0)))
         + fst (original_image_size
              (expansion_placement 45 45 (float_of_frac 4 10) (F 0 0) (F 0 0) (F 0 0)))"
  by (simp add: placement_45_left_0_4)

lemma placement_of_ratio_minus_half:
  "expansion_placement 100 100 (F (- 1) (- 1)) (F 0 0) (F 0 0) (F 0 0) =
     \<lparr>canvas_size = (50, 100), original_image_size = (100, 100),
      original_image_location = (- 50, 0)\<rparr>"
  by code_simp




lemma slider_ends: "slider_ratio 0 = F 0 0 \<and> slider_ratio 20 = F 4503599627370496 (- 51)"
  by code_simp





section \<open>Properties of the response handling\<close>

lemma item_carries_refs:
  "item = JList refs \<or> (\<exists>d'. item = JDict d' \<and> map_of d' ''urls'' = Some (JList refs)) \<Longrightarrow>
   extend_with_item urls item = Inr (urls @ refs)"
  by (auto simp: extend_with_item_def)

lemma extend_with_items_cut:
  assumes "list_all2 (\<lambda>item refs. item = JList refs
              \<or> (\<exists>d'. item = JDict d' \<and> map_of d' ''urls'' = Some (JList refs))) items refss"
    and "int (length urls) < n"
    and "rest = [] \<or> n \<le> int (length (urls @ concat refss))"
  shows "\<exists>out. extend_with_items urls (items @ rest) n = Inr out
           \<and> take (nat n) out = take (nat n) (urls @ concat refss)"
  using assms
proof (induction items arbitrary: urls refss)
  case Nil
  then have "refss = []" by simp
  with Nil show ?case by auto
next
  case (Cons item items)
  from Cons.prems(1) obtain refs refss' where
    r: "refss = refs # refss'"
       "item = JList refs \<or> (\<exists>d'. item = JDict d' \<and> map_of d' ''urls'' = Some (JList refs))"
       "list_all2 (\<lambda>item refs. item = JList refs
              \<or> (\<exists>d'. item = JDict d' \<and> map_of d' ''urls'' = Some (JList refs))) items refss'"
    by (auto simp: list_all2_Cons1)
  have step: "extend_with_item urls item = Inr (urls @ refs)"
    using r(2) by (rule item_carries_refs)
  show ?case
  proof (cases "n \<le> int (length (urls @ refs))")
    case True
    then have "nat n \<le> length (urls @ refs)" by linarith
    then have "take (nat n) (urls @ refs) = take (nat n) ((urls @ refs) @ concat refss')"
      by simp
    with True step r(1) show ?thesis by simp
  next
    case False
    then have lt: "int (length (urls @ refs)) < n" by simp
    have cut: "rest = [] \<or> n \<le> int (length ((urls @ refs) @ concat refss'))"
      using Cons.prems(3) r(1) by simp
    from Cons.IH [OF r(3) lt cut] False step r(1) show ?thesis by simp
  qed
qed

lemma collect_urls_nested:
  assumes "1 \<le> n" "map_of d ''urls'' = None" "map_of d ''result'' = Some (JList (items @ rest))"
    and "list_all2 (\<lambda>item refs. item = JList refs
              \<or> (\<exists>d'. item = JDict d' \<and> map_of d' ''urls'' = Some (JList refs))) items refss"
    and "rest = [] \<or> n \<le> int (length (concat refss))"
  shows "collect_urls (JDict d) n = Inr (take (nat n) (concat refss))"
proof -
  from extend_with_items_cut [OF assms(4), of "[]" n rest] assms(1,5) obtain out where
    out: "extend_with_items [] (items @ rest) n = Inr out"
         "take (nat n) out = take (nat n) (concat refss)"
    by auto
  with assms(1,2,3) show ?thesis
    by (simp add: collect_urls_def py_take_def)
qed

lemma collect_urls_length:
  assumes "0 \<le> n" "collect_urls r n = Inr urls"
  shows "length urls \<le> nat n"
proof (cases r)
  case (JDict d)
  show ?thesis
  proof (cases "map_of d ''urls''")
    case (Some v)
    with JDict assms show ?thesis
      by (cases v) (auto simp: collect_urls_def py_take_def)
  next
    case None
    with JDict assms show ?thesis
      by (auto simp: collect_urls_def py_take_def split: option.splits json.splits sum.splits)
  qed
qed (use assms in \<open>auto simp: collect_urls_def\<close>)

text \<open>
  Claim C3. For a requested count of at least 1, whatever \<^verbatim>\<open>urls\<close> the accumulation ends
  with has at most that many entries. A flat list is cut to its first entries. In a nested
  list each item carries its references either as a list or under \<^verbatim>\<open>urls\<close>; they are
  appended item by item, each item's references in their own order, and the loop stops as
  soon as the count is reached: the result is the first entries of the concatenation of
  the references of the items read so far, and the items behind that point are not looked
  at, whatever they are. Five flat references with count 3 give the first three; items of
  two and three references with count 4 give the two of the first item and the first two
  of the second, also when a later item could not be read at all.
\<close>

theorem collect_urls_capped_in_order:
  "(1 \<le> n \<and> collect_urls r n = Inr urls \<longrightarrow> length urls \<le> nat n)
   \<and> (1 \<le> n \<and> map_of d ''urls'' = Some (JList xs) \<longrightarrow>
        collect_urls (JDict d) n = Inr (take (nat n) xs))
   \<and> (1 \<le> n \<and> map_of d ''urls'' = None \<and> map_of d ''result'' = Some (JList (items @ rest))
        \<and> list_all2 (\<lambda>item refs. item = JList refs
              \<or> (\<exists>d'. item = JDict d' \<and> map_of d' ''urls'' = Some (JList refs))) items refss
        \<and> (rest = [] \<or> n \<le> int (length (concat refss))) \<longrightarrow>
        collect_urls (JDict d) n = Inr (take (nat n) (concat refss)))
   \<and> collect_urls (JDict [(''urls'', JList [u1, u2, u3, u4, u5])]) 3 = Inr [u1, u2, u3]
   \<and> collect_urls (JDict [(''result'',
          JList [JDict [(''urls'', JList [u1, u2])], JDict [(''urls'', JList [u3, u4, u5])]])]) 4
        = Inr [u1, u2, u3, u4]
   \<and> collect_urls (JDict [(''result'',
          JList [JList [u1, u2], JList [u3, u4, u5], JDict [(''urls'', JNum 7)]])]) 4
        = Inr [u1, u2, u3, u4]"
proof -
  have len: "1 \<le> n \<and> collect_urls r n = Inr urls \<longrightarrow> length urls \<le> nat n"
    using collect_urls_length [of n r urls] by simp
  have flat: "1 \<le> n \<and> map_of d ''urls'' = Some (JList xs) \<longrightarrow>
        collect_urls (JDict d) n = Inr (take (nat n) xs)"
    by (simp add: collect_urls_def py_take_def)
  have nested: "1 \<le> n \<and> map_of d ''urls'' = None
        \<and> map_of d ''result'' = Some (JList (items @ rest))
        \<and> list_all2 (\<lambda>item refs. item = JList refs
              \<or> (\<exists>d'. item = JDict d' \<and> map_of d' ''urls'' = Some (JList refs))) items refss
        \<and> (rest = [] \<or> n \<le> int (length (concat refss))) \<longrightarrow>
        collect_urls (JDict d) n = Inr (take (nat n) (concat refss))"
    using collect_urls_nested [of n d items rest refss] by blast
  have ex1: "collect_urls (JDict [(''urls'', JList [u1, u2, u3, u4, u5])]) 3 = Inr [u1, u2, u3]"
    by (simp add: collect_urls_def py_take_def)
  have ex2: "collect_urls (JDict [(''result'',
          JList [JDict [(''urls'', JList [u1, u2])], JDict [(''urls'', JList [u3, u4, u5])]])]) 4
        = Inr [u1, u2, u3, u4]"
    by (simp add: collect_urls_def py_take_def extend_with_item_def)
  have ex3: "collect_urls (JDict [(''result'',
          JList [JList [u1, u2], JList [u3, u4, u5], JDict [(''urls'', JNum 7)]])]) 4
        = Inr [u1, u2, u3, u4]"
    by (simp add: collect_urls_def py_take_def extend_with_item_def)
  from len flat nested ex1 ex2 ex3 show ?thesis by blast
qed

lemma item_behind_the_count_raises_when_reached:
  "collect_urls (JDict [(''result'',
          JList [JList [u1, u2], JList [u3, u4, u5], JDict [(''urls'', JNum 7)]])]) 6
        = Inl TypeError"
  by (simp add: collect_urls_def py_take_def extend_with_item_def)

theorem collect_urls_capped_in_order_witness:
  "collect_urls (JDict [(''urls'', JList [JStr ''p'', JStr ''q''])]) 1 = Inr [JStr ''p'']
   \<and> length [JStr ''p''] \<le> nat 1
   \<and> collect_urls (JDict [(''result'',
          JList [JList [JStr ''p'', JStr ''q''],
                 JDict [(''urls'', JList [JStr ''r'', JStr ''s'', JStr ''t''])],
                 JDict [(''urls'', JNum 7)]])]) 4
        = Inr [JStr ''p'', JStr ''q'', JStr ''r'', JStr ''s'']"
proof -
  have wf: "list_all2 (\<lambda>item refs. item = JList refs
              \<or> (\<exists>d'. item = JDict d' \<and> map_of d' ''urls'' = Some (JList refs)))
            [JList [JStr ''p'', JStr ''q''],
             JDict [(''urls'', JList [JStr ''r'', JStr ''s'', JStr ''t''])]]
            [[JStr ''p'', JStr ''q''], [JStr ''r'', JStr ''s'', JStr ''t'']]"
    by simp
  from collect_urls_capped_in_order
      [where n = 1 and r = "JDict [(''urls'', JList [JStr ''p'', JStr ''q''])]"
         and urls = "[JStr ''p'']"
         and d = "[(''urls'', JList [JStr ''p'', JStr ''q''])]"
         and xs = "[JStr ''p'', JStr ''q'']"]
    collect_urls_capped_in_order
      [where n = 4
         and d = "[(''result'',
            JList [JList [JStr ''p'', JStr ''q''],
                   JDict [(''urls'', JList [JStr ''r'', JStr ''s'', JStr ''t''])],
                   JDict [(''urls'', JNum 7)]])]"
         and items = "[JList [JStr ''p'', JStr ''q''],
                       JDict [(''urls'', JList [JStr ''r'', JStr ''s'', JStr ''t''])]]"
         and rest = "[JDict [(''urls'', JNum 7)]]"
         and refss = "[[JStr ''p'', JStr ''q''], [JStr ''r'', JStr ''s'', JStr ''t'']]"]
    wf
  show ?thesis by simp
qed

text \<open>
  Claim C4. The claim asks for an error whenever no recognised shape is present, also
  for a dictionary that only lacks the recognised fields. The handler shows its error
  only for a response that is not a dictionary: for the dictionary \<^verbatim>\<open>{"status": "ok"}\<close>
  nothing is selected and nothing is reported, neither success nor error.
\<close>

theorem unmatched_dict_reports_no_error:
  "handle_generate_result st (JDict [(''status'', JStr ''ok'')]) =
     (st, [Debug_response (JDict [(''status'', JStr ''ok'')])])"
  by (simp add: handle_generate_result_def match_result_shape_def)

lemma unmatched_dict_general:
  "d \<noteq> [] \<Longrightarrow> map_of d ''result_url'' = None \<Longrightarrow> map_of d ''result_urls'' = None \<Longrightarrow>
   map_of d ''result'' = None \<Longrightarrow>
   handle_generate_result st (JDict d) = (st, [Debug_response (JDict d)])"
  by (simp add: handle_generate_result_def match_result_shape_def)

text \<open>
  Claim C8. The shapes are tried in order. When \<^verbatim>\<open>result_url\<close> is present its value is
  selected, whatever the other fields hold. When it is absent and \<^verbatim>\<open>result_urls\<close> is
  present, the outcome is a function of that field alone (its first element, or the
  exception raised by taking it), whatever \<^verbatim>\<open>result\<close> holds.
\<close>

theorem result_shape_priority:
  "(map_of d ''result_url'' = Some u \<longrightarrow>
      handle_generate_result st (JDict d) =
        (st\<lparr>edited_image := Some u\<rparr>, [Debug_response (JDict d), Success_generated]))
   \<and> (map_of d ''result_url'' = None \<and> map_of d ''result_urls'' = Some v \<longrightarrow>
      handle_generate_result st (JDict d) =
        (case py_first v of
           Inl e \<Rightarrow> (st, [Debug_response (JDict d), Error_generating e])
         | Inr u' \<Rightarrow> (st\<lparr>edited_image := Some u'\<rparr>,
                       [Debug_response (JDict d), Success_generated])))"
proof -
  have ne: "map_of d k = Some x \<Longrightarrow> d \<noteq> []" for k x
    by auto
  have first: "map_of d ''result_url'' = Some u \<longrightarrow>
      handle_generate_result st (JDict d) =
        (st\<lparr>edited_image := Some u\<rparr>, [Debug_response (JDict d), Success_generated])"
    using ne by (auto simp: handle_generate_result_def match_result_shape_def)
  have second: "map_of d ''result_url'' = None \<and> map_of d ''result_urls'' = Some v \<longrightarrow>
      handle_generate_result st (JDict d) =
        (case py_first v of
           Inl e \<Rightarrow> (st, [Debug_response (JDict d), Error_generating e])
         | Inr u' \<Rightarrow> (st\<lparr>edited_image := Some u'\<rparr>,
                       [Debug_response (JDict d), Success_generated]))"
    using ne by (auto simp: handle_generate_result_def match_result_shape_def split: sum.splits)
  from first second show ?thesis by blast
qed

theorem result_shape_priority_witness:
  "handle_generate_result \<lparr>pending_urls = [], edited_image = None, generated_images = []\<rparr>
     (JDict [(''result'', JList [JList [JStr ''c'']]), (''result_urls'', JList [JStr ''b'']),
             (''result_url'', JStr ''a'')]) =
     (\<lparr>pending_urls = [], edited_image = Some (JStr ''a''), generated_images = []\<rparr>,
      [Debug_response (JDict [(''result'', JList [JList [JStr ''c'']]),
          (''result_urls'', JList [JStr ''b'']), (''result_url'', JStr ''a'')]),
       Success_generated])
   \<and> handle_generate_result \<lparr>pending_urls = [], edited_image = None, generated_images = []\<rparr>
     (JDict [(''result'', JList [JList [JStr ''c'']]), (''result_urls'', JList [JStr ''b''])]) =
     (\<lparr>pending_urls = [], edited_image = Some (JStr ''b''), generated_images = []\<rparr>,
      [Debug_response (JDict [(''result'', JList [JList [JStr ''c'']]),
          (''result_urls'', JList [JStr ''b''])]),
       Success_generated])"
  using result_shape_priority [of "[(''result'', JList [JList [JStr ''c'']]),
          (''result_urls'', JList [JStr ''b'']), (''result_url'', JStr ''a'')]" "JStr ''a''"
          "\<lparr>pending_urls = [], edited_image = None, generated_images = []\<rparr>" "JNull"]
        result_shape_priority [of "[(''result'', JList [JList [JStr ''c'']]),
          (''result_urls'', JList [JStr ''b''])]" "JNull"
          "\<lparr>pending_urls = [], edited_image = None, generated_images = []\<rparr>" "JList [JStr ''b'']"]
  by simp

section \<open>Properties of the polling\<close>

lemma probe_urls_filter:
  "probe_urls head k urls r p =
     (r @ map fst (filter (\<lambda>(u, i). head i u = Status 200) (zip urls [k..<k + length urls])),
      p @ map fst (filter (\<lambda>(u, i). head i u \<noteq> Status 200) (zip urls [k..<k + length urls])))"
proof (induction urls arbitrary: k r p)
  case Nil
  then show ?case by simp
next
  case (Cons url rest)
  have upt: "[k..<k + length (url # rest)] = k # [Suc k..<Suc k + length rest]"
    by (simp add: upt_rec)
  show ?case
    unfolding upt by (cases "head k url") (simp_all add: Cons.IH)
qed

lemma numbered_urls: "map fst (zip urls [k..<k + length urls]) = urls"
  by (simp add: map_fst_zip)

lemma numbered_nth:
  "j < length urls \<Longrightarrow> zip urls [k..<k + length urls] ! j = (urls ! j, k + j)"
  by simp

lemma split_mset:
  "mset (map fst (filter P zs)) + mset (map fst (filter (\<lambda>z. \<not> P z) zs)) = mset (map fst zs)"
  by (induction zs) auto

lemma split_disjoint:
  assumes "distinct (map fst zs)"
  shows "set (map fst (filter P zs)) \<inter> set (map fst (filter (\<lambda>z. \<not> P z) zs)) = {}"
proof -
  have inj: "inj_on fst (set zs)"
    using assms by (simp add: distinct_map)
  show ?thesis
  proof (rule ccontr)
    assume "set (map fst (filter P zs)) \<inter> set (map fst (filter (\<lambda>z. \<not> P z) zs)) \<noteq> {}"
    then obtain y z where yz: "y \<in> set zs" "P y" "z \<in> set zs" "\<not> P z" "fst y = fst z"
      by auto
    with inj have "y = z" by (auto dest: inj_onD)
    with yz show False by simp
  qed
qed

lemma first_of_filter:
  assumes "filter P zs \<noteq> []"
  obtains i where "i < length zs" and "hd (filter P zs) = zs ! i" and "P (zs ! i)"
    and "\<And>j. j < i \<Longrightarrow> \<not> P (zs ! j)"
proof -
  from assms obtain z r where zr: "filter P zs = z # r"
    by (cases "filter P zs") auto
  then obtain us vs where d: "zs = us @ z # vs" "\<forall>u\<in>set us. \<not> P u" "P z"
    by (auto simp: filter_eq_Cons_iff)
  show thesis
  proof (rule that [of "length us"])
    show "length us < length zs" using d(1) by simp
    show "hd (filter P zs) = zs ! length us" using zr d(1) by simp
    show "P (zs ! length us)" using d(1,3) by simp
    show "\<not> P (zs ! j)" if "j < length us" for j
      using d(1,2) that by (simp add: nth_append)
  qed
qed

lemma probe_urls_split:
  assumes "probe_urls head k urls [] [] = (ready, waiting)"
  shows "mset ready + mset waiting = mset urls"
    and "subseq ready urls" and "subseq waiting urls"
    and "distinct urls \<Longrightarrow> set ready \<inter> set waiting = {}"
proof -
  let ?zs = "zip urls [k..<k + length urls]"
  let ?P = "\<lambda>(u, i). head i u = Status 200"
  have neg: "(\<lambda>(u, i). head i u \<noteq> Status 200) = (\<lambda>z. \<not> ?P z)"
    by auto
  from assms have r: "ready = map fst (filter ?P ?zs)"
    and w: "waiting = map fst (filter (\<lambda>z. \<not> ?P z) ?zs)"
    by (simp_all add: probe_urls_filter neg)
  show "mset ready + mset waiting = mset urls"
    unfolding r w split_mset numbered_urls ..
  have "subseq (map fst (filter ?P ?zs)) (map fst ?zs)"
    by (intro subseq_map subseq_filter_left)
  then show "subseq ready urls" by (simp only: r numbered_urls)
  have "subseq (map fst (filter (\<lambda>z. \<not> ?P z) ?zs)) (map fst ?zs)"
    by (intro subseq_map subseq_filter_left)
  then show "subseq waiting urls" by (simp only: w numbered_urls)
  show "set ready \<inter> set waiting = {}" if "distinct urls"
    unfolding r w using that by (intro split_disjoint) (simp only: numbered_urls)
qed

lemma probe_urls_first_ready:
  assumes "probe_urls head k urls [] [] = (ready, waiting)" "ready \<noteq> []"
  shows "\<exists>i<length urls. hd ready = urls ! i \<and> head (k + i) (urls ! i) = Status 200
           \<and> (\<forall>j<i. head (k + j) (urls ! j) \<noteq> Status 200)"
proof -
  let ?zs = "zip urls [k..<k + length urls]"
  let ?P = "\<lambda>(u, i). head i u = Status 200"
  from assms(1) have r: "ready = map fst (filter ?P ?zs)"
    by (simp add: probe_urls_filter)
  with assms(2) have ne: "filter ?P ?zs \<noteq> []" by auto
  have at: "?zs ! j = (urls ! j, k + j)" if "j < length urls" for j
    using that by simp
  show ?thesis
  proof (rule first_of_filter [OF ne])
    fix i
    assume i1: "i < length ?zs" and i2: "hd (filter ?P ?zs) = ?zs ! i"
      and i3: "?P (?zs ! i)" and i4: "\<And>j. j < i \<Longrightarrow> \<not> ?P (?zs ! j)"
    have iu: "i < length urls" using i1 by simp
    have "hd ready = fst (hd (filter ?P ?zs))"
      unfolding r using ne by (simp add: hd_map)
    also have "\<dots> = urls ! i"
      by (simp only: i2 at [OF iu] fst_conv)
    finally have h: "hd ready = urls ! i" .
    from i3 have p: "head (k + i) (urls ! i) = Status 200"
      by (simp only: at [OF iu] prod.case)
    have q: "head (k + j) (urls ! j) \<noteq> Status 200" if "j < i" for j
    proof -
      have ju: "j < length urls" using that iu by simp
      from i4 [OF that] show ?thesis
        unfolding at [OF ju] prod.case .
    qed
    from iu h p q show ?thesis by blast
  qed
qed

lemma check_generated_images_unfold:
  assumes "probe_urls head k (pending_urls st) [] [] = (ready, waiting)"
  shows "check_generated_images head k st =
     (if pending_urls st = [] then (False, k, st)
      else if ready = [] then (False, k + length (pending_urls st), st\<lparr>pending_urls := waiting\<rparr>)
      else (True, k + length (pending_urls st),
            if 1 < length ready
            then st\<lparr>pending_urls := waiting, edited_image := Some (hd ready),
                    generated_images := ready\<rparr>
            else st\<lparr>pending_urls := waiting, edited_image := Some (hd ready)\<rparr>))"
  using assms by (simp add: check_generated_images_def Let_def)
lemma probe_urls_cong:
  assumes "\<forall>i u. (head1 i u = Status 200) = (head2 i u = Status 200)"
  shows "probe_urls head1 k urls r p = probe_urls head2 k urls r p"
  using assms by (simp add: probe_urls_filter)

lemma probe_urls_none_ready:
  assumes "\<forall>i u. head i u \<noteq> Status 200"
  shows "probe_urls head k urls [] [] = ([], urls)"
  using assms by (simp add: probe_urls_filter numbered_urls)

lemma check_none_ready:
  assumes "\<forall>i u. head i u \<noteq> Status 200"
  shows "check_generated_images head k st = (False, k + length (pending_urls st), st)"
  using probe_urls_none_ready [OF assms, of k "pending_urls st"]
  by (simp add: check_generated_images_def)

lemma check_generated_images_result:
  fixes head k st
  defines "zs \<equiv> zip (pending_urls st) [k..<k + length (pending_urls st)]"
  defines "ready \<equiv> map fst (filter (\<lambda>(u, i). head i u = Status 200) zs)"
  defines "waiting \<equiv> map fst (filter (\<lambda>(u, i). head i u \<noteq> Status 200) zs)"
  shows "check_generated_images head k st =
     (ready \<noteq> [], k + length (pending_urls st),
      st\<lparr>pending_urls := waiting,
         edited_image := (if ready = [] then edited_image st else Some (hd ready)),
         generated_images := (if 1 < length ready then ready else generated_images st)\<rparr>)"
proof -
  have p: "probe_urls head k (pending_urls st) [] [] = (ready, waiting)"
    by (simp add: probe_urls_filter ready_def waiting_def zs_def)
  show ?thesis
  proof (cases "pending_urls st = []")
    case True
    then have "ready = []" "waiting = []"
      by (simp_all add: ready_def waiting_def zs_def)
    with True show ?thesis
      unfolding check_generated_images_unfold [OF p] by (cases st) simp
  next
    case False
    then show ?thesis
      unfolding check_generated_images_unfold [OF p] by (cases st) auto
  qed
qed

text \<open>
  Claim C7. In one pass a probe that raises and a probe that answers with a status other
  than 200 are treated alike: two probes that agree on which requests answer 200 give the
  same result. Every pending URL is probed once, in order, whatever the earlier probes
  did. The pass is given in full: it returns \<^verbatim>\<open>True\<close> exactly when some probe answered
  200; the pending list it stores holds exactly the URLs whose probe raised or answered
  another status, so every such job stays pending, also when other jobs became ready;
  only the URLs answering 200 leave it, and the first of them is displayed. The pass
  always returns normally: when every probe raises it returns \<^verbatim>\<open>False\<close> and leaves the
  session as it was.
\<close>

theorem probe_failures_count_as_pending:
  assumes "\<forall>i u. (head1 i u = Status 200) = (head2 i u = Status 200)"
  shows "check_generated_images head1 k st = check_generated_images head2 k st
    \<and> probe_urls head1 k urls [] [] =
        (map fst (filter (\<lambda>(u, i). head1 i u = Status 200) (zip urls [k..<k + length urls])),
         map fst (filter (\<lambda>(u, i). head1 i u \<noteq> Status 200) (zip urls [k..<k + length urls])))
    \<and> fst (snd (check_generated_images head1 k st)) = k + length (pending_urls st)
    \<and> check_generated_images (\<lambda>i u. Raised) k st = (False, k + length (pending_urls st), st)
    \<and> pending_urls (snd (snd (check_generated_images head1 k st))) =
        map fst (filter (\<lambda>(u, i). head1 i u \<noteq> Status 200)
          (zip (pending_urls st) [k..<k + length (pending_urls st)]))
    \<and> check_generated_images head1 k st =
        (map fst (filter (\<lambda>(u, i). head1 i u = Status 200)
           (zip (pending_urls st) [k..<k + length (pending_urls st)])) \<noteq> [],
         k + length (pending_urls st),
         st\<lparr>pending_urls :=
              map fst (filter (\<lambda>(u, i). head1 i u \<noteq> Status 200)
                (zip (pending_urls st) [k..<k + length (pending_urls st)])),
            edited_image :=
              (if map fst (filter (\<lambda>(u, i). head1 i u = Status 200)
                    (zip (pending_urls st) [k..<k + length (pending_urls st)])) = []
               then edited_image st
               else Some (hd (map fst (filter (\<lambda>(u, i). head1 i u = Status 200)
                    (zip (pending_urls st) [k..<k + length (pending_urls st)]))))),
            generated_images :=
              (if 1 < length (map fst (filter (\<lambda>(u, i). head1 i u = Status 200)
                    (zip (pending_urls st) [k..<k + length (pending_urls st)])))
               then map fst (filter (\<lambda>(u, i). head1 i u = Status 200)
                    (zip (pending_urls st) [k..<k + length (pending_urls st)]))
               else generated_images st)\<rparr>)"
proof -
  have same: "check_generated_images head1 k st = check_generated_images head2 k st"
    by (simp add: check_generated_images_def probe_urls_cong [OF assms])
  have each: "probe_urls head1 k urls [] [] =
        (map fst (filter (\<lambda>(u, i). head1 i u = Status 200) (zip urls [k..<k + length urls])),
         map fst (filter (\<lambda>(u, i). head1 i u \<noteq> Status 200) (zip urls [k..<k + length urls])))"
    by (simp add: probe_urls_filter)
  have count: "fst (snd (check_generated_images head1 k st)) = k + length (pending_urls st)"
    by (simp add: check_generated_images_def Let_def split: prod.splits)
  have raised: "check_generated_images (\<lambda>i u. Raised) k st = (False, k + length (pending_urls st), st)"
    by (rule check_none_ready) simp
  note whole = check_generated_images_result [of head1 k st]
  have stored: "pending_urls (snd (snd (check_generated_images head1 k st))) =
        map fst (filter (\<lambda>(u, i). head1 i u \<noteq> Status 200)
          (zip (pending_urls st) [k..<k + length (pending_urls st)]))"
    unfolding whole by simp
  from same each count raised stored whole show ?thesis by blast
qed

theorem probe_failures_count_as_pending_witness:
  "check_generated_images (\<lambda>i u. if u = JStr ''b'' then Status 200 else Raised) 0
      \<lparr>pending_urls = [JStr ''a'', JStr ''b'', JStr ''c''], edited_image = None,
       generated_images = []\<rparr>
   = check_generated_images (\<lambda>i u. if u = JStr ''b'' then Status 200 else Status 503) 0
      \<lparr>pending_urls = [JStr ''a'', JStr ''b'', JStr ''c''], edited_image = None,
       generated_images = []\<rparr>
   \<and> check_generated_images (\<lambda>i u. if u = JStr ''b'' then Status 200 else Raised) 0
      \<lparr>pending_urls = [JStr ''a'', JStr ''b'', JStr ''c''], edited_image = None,
       generated_images = []\<rparr>
   = (True, 3, \<lparr>pending_urls = [JStr ''a'', JStr ''c''], edited_image = Some (JStr ''b''),
               generated_images = []\<rparr>)"
proof -
  let ?h1 = "\<lambda>(i::nat) u. if u = JStr ''b'' then Status 200 else Raised"
  let ?h2 = "\<lambda>(i::nat) u. if u = JStr ''b'' then Status 200 else Status 503"
  let ?st = "\<lparr>pending_urls = [JStr ''a'', JStr ''b'', JStr ''c''], edited_image = None,
              generated_images = []\<rparr>"
  have agree: "\<forall>i u. (?h1 i u = Status 200) = (?h2 i u = Status 200)"
    by simp
  note t = probe_failures_count_as_pending [of ?h1 ?h2 0 ?st "[]", OF agree]
  have same: "check_generated_images ?h1 0 ?st = check_generated_images ?h2 0 ?st"
    using t by (rule conjunct1)
  have whole: "check_generated_images ?h1 0 ?st
      = (True, 3, \<lparr>pending_urls = [JStr ''a'', JStr ''c''], edited_image = Some (JStr ''b''),
                  generated_images = []\<rparr>)"
    by (subst t [THEN conjunct2, THEN conjunct2, THEN conjunct2, THEN conjunct2, THEN conjunct2])
       simp
  show ?thesis
  proof (rule conjI)
    show "check_generated_images ?h1 0 ?st = check_generated_images ?h2 0 ?st"
      by (rule same)
    show "check_generated_images ?h1 0 ?st
      = (True, 3, \<lparr>pending_urls = [JStr ''a'', JStr ''c''], edited_image = Some (JStr ''b''),
                  generated_images = []\<rparr>)"
      by (rule whole)
  qed
qed

lemma auto_check_loop_none_ready:
  assumes "\<forall>i u. head i u \<noteq> Status 200" "pending_urls st \<noteq> []" "attempt \<le> max_attempts"
  shows "auto_check_loop head attempt k st =
           (False, max_attempts, k + (max_attempts - attempt) * length (pending_urls st), st)"
  using assms(3)
proof (induction "max_attempts - attempt" arbitrary: attempt k)
  case 0
  then have "attempt = max_attempts" by simp
  then show ?case by (simp add: auto_check_loop.simps)
next
  case (Suc n)
  then have lt: "attempt < max_attempts" and n: "n = max_attempts - (attempt + 1)"
    and le: "attempt + 1 \<le> max_attempts"
    by simp_all
  have "auto_check_loop head attempt k st =
          auto_check_loop head (attempt + 1) (k + length (pending_urls st)) st"
    using lt assms(2) by (subst auto_check_loop.simps) (simp add: check_none_ready [OF assms(1)])
  also have "\<dots> = (False, max_attempts,
       k + length (pending_urls st) + (max_attempts - (attempt + 1)) * length (pending_urls st), st)"
    by (rule Suc.hyps(1) [OF n le])
  also have "k + length (pending_urls st) + (max_attempts - (attempt + 1)) * length (pending_urls st)
       = k + (max_attempts - attempt) * length (pending_urls st)"
  proof -
    have s: "max_attempts - attempt = Suc (max_attempts - (attempt + 1))"
      using lt by simp
    show ?thesis unfolding s by simp
  qed
  finally show ?case .
qed

text \<open>
  Claim C2, as the claim states it for every job set, fails on the empty one: the loop
  condition is false at once and no attempt is made.
\<close>

theorem auto_check_images_empty_job_set:
  "auto_check_images (\<lambda>i u. Raised) 0
      \<lparr>pending_urls = [], edited_image = None, generated_images = []\<rparr>
   = (False, 0, 0, \<lparr>pending_urls = [], edited_image = None, generated_images = []\<rparr>)"
  by (simp add: auto_check_images_def auto_check_loop.simps)

text \<open>
  Claim C2, amended. For every job set that is not empty and whose probes never answer
  200, \<^verbatim>\<open>auto_check_images\<close> makes exactly three passes (\<^verbatim>\<open>attempt\<close> ends at 3 and every
  URL has been probed three times), returns \<^verbatim>\<open>False\<close>, and leaves the session as it was:
  nothing is promoted and the pending list is intact. For an empty job set it makes no
  pass.
\<close>

theorem auto_check_images_three_attempts:
  "((\<forall>i u. head i u \<noteq> Status 200) \<and> pending_urls st \<noteq> [] \<longrightarrow>
      auto_check_images head k st = (False, 3, k + 3 * length (pending_urls st), st))
   \<and> (pending_urls st = [] \<longrightarrow> auto_check_images head k st = (False, 0, k, st))"
proof -
  have a: "(\<forall>i u. head i u \<noteq> Status 200) \<and> pending_urls st \<noteq> [] \<longrightarrow>
      auto_check_images head k st = (False, 3, k + 3 * length (pending_urls st), st)"
  proof (intro impI, elim conjE)
    assume f: "\<forall>i u. head i u \<noteq> Status 200" and p: "pending_urls st \<noteq> []"
    from auto_check_loop_none_ready [OF f p, of 0 k]
    show "auto_check_images head k st = (False, 3, k + 3 * length (pending_urls st), st)"
      by (simp add: auto_check_images_def max_attempts_def)
  qed
  have b: "pending_urls st = [] \<longrightarrow> auto_check_images head k st = (False, 0, k, st)"
    by (simp add: auto_check_images_def auto_check_loop.simps)
  from a b show ?thesis by blast
qed

theorem auto_check_images_three_attempts_witness:
  "auto_check_images (\<lambda>i u. if even i then Raised else Status 404) 5
      \<lparr>pending_urls = [JStr ''a'', JStr ''b''], edited_image = None, generated_images = []\<rparr>
   = (False, 3, 11,
      \<lparr>pending_urls = [JStr ''a'', JStr ''b''], edited_image = None, generated_images = []\<rparr>)
   \<and> auto_check_images (\<lambda>i u. Status 200) 5
      \<lparr>pending_urls = [], edited_image = None, generated_images = []\<rparr>
   = (False, 0, 5, \<lparr>pending_urls = [], edited_image = None, generated_images = []\<rparr>)"
  using auto_check_images_three_attempts
      [where head = "\<lambda>i u. if even i then Raised else Status 404" and k = 5
         and st = "\<lparr>pending_urls = [JStr ''a'', JStr ''b''], edited_image = None,
                    generated_images = []\<rparr>"]
    auto_check_images_three_attempts
      [where head = "\<lambda>i u. Status 200" and k = 5
         and st = "\<lparr>pending_urls = [], edited_image = None, generated_images = []\<rparr>"]
  by simp

text \<open>
  Claim C10. Let \<open>ready\<close> and \<open>waiting\<close> be the two lists the loop of one pass builds.
  Together they hold exactly the entries of the prior pending list (as multisets: nothing
  dropped, duplicated or invented), each in the order of the prior list, and they share no
  URL when the prior list has no duplicates. The stored pending list is \<open>waiting\<close>. The
  pass returns \<^verbatim>\<open>True\<close> exactly when \<open>ready\<close> is not empty, and then the displayed image
  is the first entry of \<open>ready\<close>, which is the first URL of the prior list whose probe
  answered 200.
\<close>

theorem check_generated_images_partitions:
  assumes "probe_urls head k (pending_urls st) [] [] = (ready, waiting)"
  shows "mset ready + mset waiting = mset (pending_urls st)
    \<and> subseq ready (pending_urls st) \<and> subseq waiting (pending_urls st)
    \<and> (distinct (pending_urls st) \<longrightarrow> set ready \<inter> set waiting = {})
    \<and> pending_urls (snd (snd (check_generated_images head k st))) = waiting
    \<and> fst (check_generated_images head k st) = (ready \<noteq> [])
    \<and> (ready \<noteq> [] \<longrightarrow>
          edited_image (snd (snd (check_generated_images head k st))) = Some (hd ready)
          \<and> (\<exists>i<length (pending_urls st).
                hd ready = pending_urls st ! i
                \<and> head (k + i) (pending_urls st ! i) = Status 200
                \<and> (\<forall>j<i. head (k + j) (pending_urls st ! j) \<noteq> Status 200)))
    \<and> (ready = [] \<longrightarrow>
          edited_image (snd (snd (check_generated_images head k st))) = edited_image st)"
proof -
  note u = check_generated_images_unfold [OF assms]
  have empty: "ready = [] \<and> waiting = []" if "pending_urls st = []"
    using assms that by simp
  have stored: "pending_urls (snd (snd (check_generated_images head k st))) = waiting"
    unfolding u using empty by auto
  have found: "fst (check_generated_images head k st) = (ready \<noteq> [])"
    unfolding u using empty by auto
  have shown: "edited_image (snd (snd (check_generated_images head k st))) = Some (hd ready)"
    if "ready \<noteq> []"
    unfolding u using empty that by auto
  have kept: "edited_image (snd (snd (check_generated_images head k st))) = edited_image st"
    if "ready = []"
    unfolding u using that by auto
  from probe_urls_split [OF assms] probe_urls_first_ready [OF assms] stored found shown kept
  show ?thesis by blast
qed

theorem check_generated_images_partitions_witness:
  "probe_urls (\<lambda>i u. if u = JStr ''a'' then Raised else Status 200) 0
      [JStr ''a'', JStr ''b'', JStr ''c''] [] [] = ([JStr ''b'', JStr ''c''], [JStr ''a''])
   \<and> check_generated_images (\<lambda>i u. if u = JStr ''a'' then Raised else Status 200) 0
        \<lparr>pending_urls = [JStr ''a'', JStr ''b'', JStr ''c''], edited_image = None,
         generated_images = []\<rparr>
      = (True, 3, \<lparr>pending_urls = [JStr ''a''], edited_image = Some (JStr ''b''),
                  generated_images = [JStr ''b'', JStr ''c'']\<rparr>)
   \<and> subseq [JStr ''b'', JStr ''c''] [JStr ''a'', JStr ''b'', JStr ''c'']
   \<and> probe_urls (\<lambda>i u. Status 404) 0 [JStr ''a'', JStr ''b''] [] []
      = ([], [JStr ''a'', JStr ''b''])
   \<and> edited_image (snd (snd (check_generated_images (\<lambda>i u. Status 404) 0
        \<lparr>pending_urls = [JStr ''a'', JStr ''b''], edited_image = Some (JStr ''z''),
         generated_images = []\<rparr>))) = Some (JStr ''z'')"
proof -
  have p: "probe_urls (\<lambda>i u. if u = JStr ''a'' then Raised else Status 200) 0
      (pending_urls \<lparr>pending_urls = [JStr ''a'', JStr ''b'', JStr ''c''], edited_image = None,
         generated_images = []\<rparr>) [] [] = ([JStr ''b'', JStr ''c''], [JStr ''a''])"
    by simp
  have c: "check_generated_images (\<lambda>i u. if u = JStr ''a'' then Raised else Status 200) 0
        \<lparr>pending_urls = [JStr ''a'', JStr ''b'', JStr ''c''], edited_image = None,
         generated_images = []\<rparr>
      = (True, 3, \<lparr>pending_urls = [JStr ''a''], edited_image = Some (JStr ''b''),
                  generated_images = [JStr ''b'', JStr ''c'']\<rparr>)"
    by (simp add: check_generated_images_def)
  have q: "probe_urls (\<lambda>i u. Status 404) 0
      (pending_urls \<lparr>pending_urls = [JStr ''a'', JStr ''b''], edited_image = Some (JStr ''z''),
         generated_images = []\<rparr>) [] [] = ([], [JStr ''a'', JStr ''b''])"
    by simp
  from check_generated_images_partitions [OF p] check_generated_images_partitions [OF q] p c q
  show ?thesis
    by simp
qed

section \<open>Properties of the lifestyle shot arguments\<close>

lemma lifestyle_request_unbound:
  "pt = Manual_Placement \<or> pt = Manual_Padding \<Longrightarrow>
   lifestyle_request pt w = Inl UnboundLocalError"
  by (auto simp: lifestyle_request_def lifestyle_call_args_def lifestyle_widgets_def
      read_locals_def bind_if_def)

lemma placement_name_manual_padding:
  "(placement_name pt = ''manual_padding'') = (pt = Manual_Padding)"
  by (cases pt) simp_all

lemma placement_name_custom_coordinates:
  "(placement_name pt = ''custom_coordinates'') = (pt = Custom_Coordinates)"
  by (cases pt) simp_all

text \<open>
  The call itself does not null the padding: for every placement type other than manual
  padding \<^verbatim>\<open>app.py\<close> passes the substitute \<^verbatim>\<open>[0, 0, 0, 0]\<close> as \<^verbatim>\<open>padding_values\<close>. Whether
  it is sent is decided by the service.
\<close>

lemma lifestyle_call_padding_argument:
  "lifestyle_request pt w = Inr a \<Longrightarrow> pt \<noteq> Manual_Padding \<Longrightarrow>
   arg_padding_values a = Some [0, 0, 0, 0]"
  by (cases pt)
     (auto simp: lifestyle_request_def lifestyle_call_args_def lifestyle_widgets_def
        read_locals_def bind_if_def)

text \<open>
  Claim C9. In every lifestyle shot request that is dispatched with a placement type
  other than manual padding, the padding values are null, so the substitute that the call
  passes is not sent; the foreground image size and location are sent, with the values of
  their widgets, when the placement type is custom coordinates and are null otherwise.
  The request is the one the service assembles, which is modelled from the spec.
\<close>

theorem lifestyle_dispatch_parameter_groups:
  assumes "lifestyle_dispatch pt w = Inr q"
  shows "(pt \<noteq> Manual_Padding \<longrightarrow> req_padding_values q = None)
    \<and> (pt = Custom_Coordinates \<longrightarrow>
          req_foreground_image_size q = Some [w_fg_width w, w_fg_height w]
          \<and> req_foreground_image_location q = Some [w_fg_x w, w_fg_y w])
    \<and> (pt \<noteq> Custom_Coordinates \<longrightarrow>
          req_foreground_image_size q = None \<and> req_foreground_image_location q = None)"
proof -
  from assms obtain a where a: "lifestyle_request pt w = Inr a"
    and q: "q = lifestyle_shot_payload a"
    by (auto simp: lifestyle_dispatch_def split: sum.splits)
  have name: "arg_placement_type a = placement_name pt"
    using a by (auto simp: lifestyle_request_def lifestyle_call_args_def split: sum.splits if_splits)
  have pad: "pt \<noteq> Manual_Padding \<longrightarrow> req_padding_values q = None"
    by (simp add: q lifestyle_shot_payload_def name placement_name_manual_padding)
  have other: "pt \<noteq> Custom_Coordinates \<longrightarrow>
          req_foreground_image_size q = None \<and> req_foreground_image_location q = None"
    by (simp add: q lifestyle_shot_payload_def name placement_name_custom_coordinates)
  have custom: "pt = Custom_Coordinates \<longrightarrow>
          req_foreground_image_size q = Some [w_fg_width w, w_fg_height w]
          \<and> req_foreground_image_location q = Some [w_fg_x w, w_fg_y w]"
    using a
    by (auto simp: q lifestyle_shot_payload_def lifestyle_request_def lifestyle_call_args_def
        lifestyle_widgets_def read_locals_def bind_if_def)
  from pad custom other show ?thesis by blast
qed

theorem lifestyle_dispatch_parameter_groups_witness:
  "lifestyle_dispatch Custom_Coordinates
     \<lparr>w_pad_left = 10, w_pad_right = 20, w_pad_top = 30, w_pad_bottom = 40,
      w_shot_width = 1200, w_shot_height = 900,
      w_fg_width = 500, w_fg_height = 400, w_fg_x = 7, w_fg_y = 8\<rparr>
   = Inr \<lparr>req_placement_type = ''custom_coordinates'', req_shot_size = [1200, 900],
          req_padding_values = None,
          req_foreground_image_size = Some [500, 400],
          req_foreground_image_location = Some [7, 8]\<rparr>
   \<and> lifestyle_dispatch Automatic
     \<lparr>w_pad_left = 10, w_pad_right = 20, w_pad_top = 30, w_pad_bottom = 40,
      w_shot_width = 1200, w_shot_height = 900,
      w_fg_width = 500, w_fg_height = 400, w_fg_x = 7, w_fg_y = 8\<rparr>
   = Inr \<lparr>req_placement_type = ''automatic'', req_shot_size = [1200, 900],
          req_padding_values = None,
          req_foreground_image_size = None, req_foreground_image_location = None\<rparr>"
proof -
  let ?w = "\<lparr>w_pad_left = 10, w_pad_right = 20, w_pad_top = 30, w_pad_bottom = 40,
      w_shot_width = 1200, w_shot_height = 900,
      w_fg_width = 500, w_fg_height = 400, w_fg_x = 7, w_fg_y = 8\<rparr>"
  have a: "lifestyle_dispatch Custom_Coordinates ?w
     = Inr \<lparr>req_placement_type = ''custom_coordinates'', req_shot_size = [1200, 900],
          req_padding_values = None,
          req_foreground_image_size = Some [500, 400],
          req_foreground_image_location = Some [7, 8]\<rparr>"
    by (simp add: lifestyle_dispatch_def lifestyle_shot_payload_def lifestyle_request_def
        lifestyle_call_args_def lifestyle_widgets_def read_locals_def bind_if_def)
  have b: "lifestyle_dispatch Automatic ?w
     = Inr \<lparr>req_placement_type = ''automatic'', req_shot_size = [1200, 900],
          req_padding_values = None,
          req_foreground_image_size = None, req_foreground_image_location = None\<rparr>"
    by (simp add: lifestyle_dispatch_def lifestyle_shot_payload_def lifestyle_request_def
        lifestyle_call_args_def lifestyle_widgets_def read_locals_def bind_if_def)
  from lifestyle_dispatch_parameter_groups [OF a] lifestyle_dispatch_parameter_groups [OF b] a b
  show ?thesis by simp
qed

end
